theory Spec2Isabelle
  imports Main "HOL-Library.Word"
begin

section \<open>The controller bootstrap of cert-manager (cmd/controller/app/controller.go)\<close>

text \<open>
  The file has three functions: \<open>Run\<close>, \<open>buildControllerContext\<close> and
  \<open>startLeaderElection\<close>. Everything they call outside the file (the Kubernetes
  client constructors, the quantity parser, the controller registry, the metrics
  exporter, the leader-election library, glog) is an external collaborator. The model
  keeps the results of those calls in an environment record \<open>env\<close>, builds the handles
  they return as symbolic terms, and records the calls and the log lines of a goroutine
  as \<open>action\<close>s, in program order; accessors and \<open>rest.AddUserAgent\<close> only show in
  the terms. \<open>glog.Fatalf\<close> logs and exits the process, so it is always the last
  action of the goroutine that performs it. The stop channel is not modelled: when a
  worker's call returns, and with what, is up to the environment.
\<close>

subsection \<open>Data model\<close>

text \<open>\<open>time.Duration\<close> is a 64-bit integer count of nanoseconds.\<close>

type_synonym time_Duration = "64 word"

definition time_Second :: time_Duration where
  "time_Second = 1000000000"

text \<open>Handles of external packages, as the terms that built them.\<close>

datatype rest_Config = RestConfig string | AddUserAgent rest_Config string

datatype cm_Clientset = CMClientset rest_Config

datatype kube_Clientset = KubeClientset rest_Config

datatype EventRecorder = NewRecorder string

datatype cm_InformerFactory =
  informers_NewFilteredSharedInformerFactory cm_Clientset time_Duration string

datatype kube_InformerFactory =
  kubeinformers_NewFilteredSharedInformerFactory kube_Clientset time_Duration string

text \<open>
  \<open>controller.Context\<close> and its option groups (package pkg/controller), with the
  fields this file fills in. \<open>'q\<close> is \<open>resource.Quantity\<close>.
\<close>

record 'q ACMEOptions =
  HTTP01SolverImage :: string
  HTTP01SolverResourceRequestCPU :: 'q
  HTTP01SolverResourceRequestMemory :: 'q
  HTTP01SolverResourceLimitsCPU :: 'q
  HTTP01SolverResourceLimitsMemory :: 'q
  DNS01CheckAuthoritative :: bool
  DNS01Nameservers :: "string list"

record IssuerOptions =
  ClusterIssuerAmbientCredentials :: bool
  IssuerAmbientCredentials :: bool
  ClusterResourceNamespace :: string
  RenewBeforeExpiryDuration :: time_Duration

record IngressShimOptions =
  DefaultIssuerName :: string
  DefaultIssuerKind :: string
  DefaultAutoCertificateAnnotations :: "string list"
  DefaultACMEIssuerChallengeType :: string
  DefaultACMEIssuerDNS01ProviderName :: string

record CertificateOptions =
  EnableOwnerRef :: bool

record 'q Context =
  Client :: kube_Clientset
  CMClient :: cm_Clientset
  Recorder :: EventRecorder
  KubeSharedInformerFactory :: kube_InformerFactory
  SharedInformerFactory :: cm_InformerFactory
  Namespace :: string
  ACMEOptions :: "'q ACMEOptions"
  IssuerOptions :: IssuerOptions
  IngressShimOptions :: IngressShimOptions
  CertificateOptions :: CertificateOptions

text \<open>
  \<open>options.ControllerOptions\<close> (package cmd/controller/app/options): the fields this
  file reads, with the types at which it uses them. Several have the name of a field
  of the context; declared last, the plain name is the option's, and the context's is
  written \<open>Context.Namespace\<close>, \<open>IssuerOptions.ClusterResourceNamespace\<close> and so on.
\<close>

record ControllerOptions =
  APIServerHost :: string
  Namespace :: string
  EnabledControllers :: "string list"
  LeaderElect :: bool
  LeaderElectionNamespace :: string
  LeaderElectionLeaseDuration :: time_Duration
  LeaderElectionRenewDeadline :: time_Duration
  LeaderElectionRetryPeriod :: time_Duration
  ACMEHTTP01SolverImage :: string
  ACMEHTTP01SolverResourceRequestCPU :: string
  ACMEHTTP01SolverResourceRequestMemory :: string
  ACMEHTTP01SolverResourceLimitsCPU :: string
  ACMEHTTP01SolverResourceLimitsMemory :: string
  DNS01RecursiveNameservers :: "string list"
  DNS01RecursiveNameserversOnly :: bool
  ClusterIssuerAmbientCredentials :: bool
  IssuerAmbientCredentials :: bool
  ClusterResourceNamespace :: string
  RenewBeforeExpiryDuration :: time_Duration
  DefaultIssuerName :: string
  DefaultIssuerKind :: string
  DefaultAutoCertificateAnnotations :: "string list"
  DefaultACMEIssuerChallengeType :: string
  DefaultACMEIssuerDNS01ProviderName :: string
  EnableCertificateOwnerRef :: bool

text \<open>
  The environment: what the external calls of the file return. An error is its
  message (\<open>err.Error()\<close>). A constructor that returns a handle and an error is
  given by its error alone (\<open>None\<close> is \<open>nil\<close>); the handle of a successful call is
  the term of the call. \<open>Known\<close> lists the names of
  \<open>controller.Known()\<close> in the order the \<open>range\<close> loop meets them: Go iterates
  a map in an unspecified order and meets every key once, so the theorems below hold
  for every list. The factory registered under a name and the runnable it returns are
  opaque; the model identifies them by the name.
\<close>

record 'q env =
  KubeConfig :: "string \<Rightarrow> string option"
  clientset_NewForConfig :: "rest_Config \<Rightarrow> string option"
  kubernetes_NewForConfig :: "rest_Config \<Rightarrow> string option"
  ParseQuantity :: "string \<Rightarrow> string + 'q"
  RecursiveNameservers :: "string list"
  Known :: "string list"
  Hostname :: "string + string"

text \<open>The lock and the configuration handed to the leader-election library.\<close>

record ConfigMapLock =
  lock_Namespace :: string
  lock_Name :: string
  lock_Client :: kube_Clientset
  lock_Identity :: string
  lock_EventRecorder :: EventRecorder

text \<open>An argument of a log call: a string, or a string slice (printed with \<open>%v\<close>).\<close>

datatype arg = S string | L "string list"

text \<open>
  The goroutines \<open>run\<close> launches: the metrics exporter
  (\<open>metrics.Default.Start(stopCh)\<close>) and a controller's runnable, called with a
  number of workers (\<open>fn(workers, stopCh)\<close>).
\<close>

datatype goroutine = MetricsStart | ControllerRun string int

text \<open>
  The actions of a goroutine. \<open>RunOrDie\<close> carries the fields of the
  \<open>LeaderElectionConfig\<close> it is called with: the lock, the lease duration, the renew
  deadline, the retry period, and the two callbacks \<open>OnStartedLeading\<close> and
  \<open>OnStoppedLeading\<close>, each as the actions its body performs.
\<close>

datatype action =
    Infof string "arg list"
  | V4_Info string
  | V4_Infof string "arg list"
  | Fatalf string "arg list"
  | Call_KubeConfig string
  | Call_clientset_NewForConfig rest_Config
  | Call_kubernetes_NewForConfig rest_Config
  | Call_ParseQuantity string
  | AddToScheme
  | NewBroadcaster
  | StartLogging
  | StartRecordingToSink kube_Clientset
  | Call_NewRecorder string
  | Call_informers_NewFilteredSharedInformerFactory cm_Clientset time_Duration string
  | Call_kubeinformers_NewFilteredSharedInformerFactory kube_Clientset time_Duration string
  | Call_Factory string
  | WgAdd nat
  | Go goroutine
  | SharedInformerFactory_Start cm_InformerFactory
  | KubeSharedInformerFactory_Start kube_InformerFactory
  | WgWait
  | Call_Hostname
  | RunOrDie ConfigMapLock time_Duration time_Duration time_Duration "action list" "action list"
  | Call_metrics_Start
  | Call_Runnable string int
  | Panic string

subsection \<open>buildControllerContext\<close>

definition controllerAgentName :: string where
  "controllerAgentName = ''cert-manager''"

text \<open>
  The function returns the actions it performed and its result: the error
  (\<open>fmt.Errorf\<close> with one \<open>%s\<close>, which appends the message) or the context and the
  rest configuration.
\<close>

definition buildControllerContext ::
  "'q env \<Rightarrow> ControllerOptions \<Rightarrow> action list \<times> (string + 'q Context \<times> rest_Config)" where
  "buildControllerContext e opts =
    (let t1 = [Call_KubeConfig (APIServerHost opts)] in
     case KubeConfig e (APIServerHost opts) of
       Some err \<Rightarrow> (t1, Inl (''error creating rest config: '' @ err))
     | None \<Rightarrow>
    (let kubeCfg = RestConfig (APIServerHost opts);
         t2 = t1 @ [Call_clientset_NewForConfig kubeCfg] in
     case clientset_NewForConfig e kubeCfg of
       Some err \<Rightarrow> (t2, Inl (''error creating internal group client: '' @ err))
     | None \<Rightarrow>
    (let intcl = CMClientset kubeCfg;
         t3 = t2 @ [Call_kubernetes_NewForConfig kubeCfg] in
     case kubernetes_NewForConfig e kubeCfg of
       Some err \<Rightarrow> (t3, Inl (''error creating kubernetes client: '' @ err))
     | None \<Rightarrow>
    (let cl = KubeClientset kubeCfg;
         nameservers = (if length (DNS01RecursiveNameservers opts) = 0
                        then RecursiveNameservers e
                        else DNS01RecursiveNameservers opts);
         t4 = t3 @ [Infof ''Using the following nameservers for DNS01 checks: %v'' [L nameservers],
                    Call_ParseQuantity (ACMEHTTP01SolverResourceRequestCPU opts)] in
     case ParseQuantity e (ACMEHTTP01SolverResourceRequestCPU opts) of
       Inl err \<Rightarrow> (t4, Inl (''error parsing ACMEHTTP01SolverResourceRequestCPU: '' @ err))
     | Inr requestCPU \<Rightarrow>
    (let t5 = t4 @ [Call_ParseQuantity (ACMEHTTP01SolverResourceRequestMemory opts)] in
     case ParseQuantity e (ACMEHTTP01SolverResourceRequestMemory opts) of
       Inl err \<Rightarrow> (t5, Inl (''error parsing ACMEHTTP01SolverResourceRequestMemory: '' @ err))
     | Inr requestMemory \<Rightarrow>
    (let t6 = t5 @ [Call_ParseQuantity (ACMEHTTP01SolverResourceLimitsCPU opts)] in
     case ParseQuantity e (ACMEHTTP01SolverResourceLimitsCPU opts) of
       Inl err \<Rightarrow> (t6, Inl (''error parsing ACMEHTTP01SolverResourceLimitsCPU: '' @ err))
     | Inr limitsCPU \<Rightarrow>
    (let t7 = t6 @ [Call_ParseQuantity (ACMEHTTP01SolverResourceLimitsMemory opts)] in
     case ParseQuantity e (ACMEHTTP01SolverResourceLimitsMemory opts) of
       Inl err \<Rightarrow> (t7, Inl (''error parsing ACMEHTTP01SolverResourceLimitsMemory: '' @ err))
     | Inr limitsMemory \<Rightarrow>
    (let t8 = t7 @ [AddToScheme, V4_Info ''Creating event broadcaster'', NewBroadcaster,
                    StartLogging, StartRecordingToSink cl,
                    Call_NewRecorder controllerAgentName,
                    Call_informers_NewFilteredSharedInformerFactory intcl (time_Second * 30)
                      (Namespace opts),
                    Call_kubeinformers_NewFilteredSharedInformerFactory cl (time_Second * 30)
                      (Namespace opts)];
         recorder = NewRecorder controllerAgentName;
         sharedInformerFactory =
           informers_NewFilteredSharedInformerFactory intcl (time_Second * 30) (Namespace opts);
         kubeSharedInformerFactory =
           kubeinformers_NewFilteredSharedInformerFactory cl (time_Second * 30) (Namespace opts)
     in (t8, Inr (\<lparr>
          Client = cl,
          CMClient = intcl,
          Recorder = recorder,
          KubeSharedInformerFactory = kubeSharedInformerFactory,
          SharedInformerFactory = sharedInformerFactory,
          Context.Namespace = Namespace opts,
          ACMEOptions = \<lparr>
            HTTP01SolverImage = ACMEHTTP01SolverImage opts,
            HTTP01SolverResourceRequestCPU = requestCPU,
            HTTP01SolverResourceRequestMemory = requestMemory,
            HTTP01SolverResourceLimitsCPU = limitsCPU,
            HTTP01SolverResourceLimitsMemory = limitsMemory,
            DNS01CheckAuthoritative = (\<not> DNS01RecursiveNameserversOnly opts),
            DNS01Nameservers = nameservers\<rparr>,
          IssuerOptions = \<lparr>
            IssuerOptions.ClusterIssuerAmbientCredentials = ClusterIssuerAmbientCredentials opts,
            IssuerOptions.IssuerAmbientCredentials = IssuerAmbientCredentials opts,
            IssuerOptions.ClusterResourceNamespace = ClusterResourceNamespace opts,
            IssuerOptions.RenewBeforeExpiryDuration = RenewBeforeExpiryDuration opts\<rparr>,
          IngressShimOptions = \<lparr>
            IngressShimOptions.DefaultIssuerName = DefaultIssuerName opts,
            IngressShimOptions.DefaultIssuerKind = DefaultIssuerKind opts,
            IngressShimOptions.DefaultAutoCertificateAnnotations =
              DefaultAutoCertificateAnnotations opts,
            IngressShimOptions.DefaultACMEIssuerChallengeType =
              DefaultACMEIssuerChallengeType opts,
            IngressShimOptions.DefaultACMEIssuerDNS01ProviderName =
              DefaultACMEIssuerDNS01ProviderName opts\<rparr>,
          CertificateOptions = \<lparr>EnableOwnerRef = EnableCertificateOwnerRef opts\<rparr>\<rparr>,
        kubeCfg))))))))))"

subsection \<open>Run\<close>

text \<open>
  Modelled from the spec: \<open>util.Contains\<close> (package pkg/util) is not in the file;
  the spec says a controller is skipped "if not in the enabled set", so it is
  membership in the slice.
\<close>

definition util_Contains :: "string list \<Rightarrow> string \<Rightarrow> bool" where
  "util_Contains ss s = (s \<in> set ss)"

text \<open>
  Modelled from the spec: the constant \<open>clusterissuers.ControllerName\<close> (package
  pkg/controller/clusterissuers) is not in the file; the spec's scenarios name the
  cluster-scoped controller "clusterissuers".
\<close>

definition clusterissuers_ControllerName :: string where
  "clusterissuers_ControllerName = ''clusterissuers''"

text \<open>
  The body of the goroutine launched for a controller: it sets \<open>workers := 5\<close> and
  calls the runnable with it.
\<close>

definition controller_goroutine :: "string \<Rightarrow> goroutine" where
  "controller_goroutine n = (let workers = 5 in ControllerRun n workers)"

text \<open>
  The \<open>range\<close> loop of \<open>run\<close> over the registry. The argument \<open>fn(ctx)\<close> of the
  \<open>go\<close> statement is evaluated by the looping goroutine, after \<open>wg.Add(1)\<close>.
\<close>

fun launch_controllers :: "ControllerOptions \<Rightarrow> 'q Context \<Rightarrow> string list \<Rightarrow> action list" where
  "launch_controllers opts ctx [] = []"
| "launch_controllers opts ctx (n # ns) =
    (if \<not> util_Contains (EnabledControllers opts) n then
       Infof ''%s controller is not in list of controllers to enable, so not enabling it'' [S n]
         # launch_controllers opts ctx ns
     else if Context.Namespace ctx \<noteq> [] \<and> n = clusterissuers_ControllerName then
       Infof ''Skipping ClusterIssuer controller as cert-manager is scoped to a single namespace'' []
         # launch_controllers opts ctx ns
     else
       [WgAdd 1, Call_Factory n, Go (controller_goroutine n)] @ launch_controllers opts ctx ns)"

text \<open>The closure \<open>run\<close>: what the goroutine that executes it does, in order.\<close>

definition run :: "ControllerOptions \<Rightarrow> 'q Context \<Rightarrow> string list \<Rightarrow> action list" where
  "run opts ctx known =
     [WgAdd 1, Go MetricsStart]
     @ launch_controllers opts ctx known
     @ [V4_Infof ''Starting shared informer factory'' [],
        SharedInformerFactory_Start (SharedInformerFactory ctx),
        KubeSharedInformerFactory_Start (KubeSharedInformerFactory ctx),
        WgWait,
        Fatalf ''Control loops exited'' []]"

text \<open>
  An action that ends the process: \<open>glog.Fatalf\<close> exits, an uncaught panic crashes.
  What follows it in the source is never executed.
\<close>

fun exits :: "action \<Rightarrow> bool" where
  "exits (Fatalf f as) = True"
| "exits (Panic m) = True"
| "exits a = False"

definition and_then :: "action list \<Rightarrow> action list \<Rightarrow> action list" where
  "and_then xs ys = (if list_ex exits xs then xs else xs @ ys)"

definition startLeaderElection ::
  "'q env \<Rightarrow> ControllerOptions \<Rightarrow> kube_Clientset \<Rightarrow> EventRecorder \<Rightarrow> action list \<Rightarrow> action list" where
  "startLeaderElection e opts leaderElectionClient recorder run_closure =
    (case Hostname e of
       Inl err \<Rightarrow> [Call_Hostname, Fatalf ''error getting hostname: %s'' [S err]]
     | Inr ident \<Rightarrow>
        (let rl = \<lparr>lock_Namespace = LeaderElectionNamespace opts,
                   lock_Name = ''cert-manager-controller'',
                   lock_Client = leaderElectionClient,
                   lock_Identity = ident @ ''-external-cert-manager-controller'',
                   lock_EventRecorder = recorder\<rparr>
         in [Call_Hostname,
             RunOrDie rl (LeaderElectionLeaseDuration opts) (LeaderElectionRenewDeadline opts)
               (LeaderElectionRetryPeriod opts)
               run_closure
               [Fatalf ''leaderelection lost'' []]]))"

text \<open>
  \<open>Run\<close>: the actions of the goroutine that calls it. \<open>glog.Fatalf(err.Error())\<close>
  passes the message as the format. An action that blocks (\<open>WgWait\<close>, \<open>RunOrDie\<close>) is
  followed by what the goroutine does if it ever resumes.
\<close>

definition Run :: "'q env \<Rightarrow> ControllerOptions \<Rightarrow> action list" where
  "Run e opts =
    (case buildControllerContext e opts of
       (t, Inl err) \<Rightarrow> t @ [Fatalf err []]
     | (t, Inr (ctx, kubeCfg)) \<Rightarrow>
         if \<not> LeaderElect opts then t @ run opts ctx (Known e)
         else
           (let cfg = AddUserAgent kubeCfg ''leader-election'';
                t' = t @ [Call_kubernetes_NewForConfig cfg]
            in case kubernetes_NewForConfig e cfg of
                 Some err \<Rightarrow> t' @ [Fatalf ''error creating leader election client: %s'' [S err]]
               | None \<Rightarrow>
                   t' @ and_then
                          (startLeaderElection e opts (KubeClientset cfg) (Recorder ctx)
                             (run opts ctx (Known e)))
                          [Panic ''unreachable'']))"

subsection \<open>The process: goroutines, the wait group and the leader-election callbacks\<close>

text \<open>
  The state of the running process. \<open>main\<close> is what the goroutine that called
  \<open>Run\<close> has still to do; \<open>callback\<close> is what the goroutine the leader-election
  library starts for \<open>OnStartedLeading\<close> has still to do, and \<open>acquired\<close> says
  that the library has started it; \<open>launched\<close> are the worker
  goroutines created by a \<open>go\<close> statement that have not begun, \<open>running\<close> those
  blocked in their runnable; \<open>wg\<close> is the counter of the \<open>sync.WaitGroup\<close>; \<open>out\<close>
  is every action performed so far, in the order of execution.
\<close>

record proc =
  main :: "action list"
  callback :: "action list"
  acquired :: bool
  wg :: nat
  launched :: "goroutine list"
  running :: "goroutine list"
  out :: "action list"
  exited :: bool

text \<open>
  What the scheduler and the environment can do next: let one of the two sequential
  goroutines perform its next action, let a launched worker begin, let a running
  worker's call return (a controller's runnable returns an error or nil;
  \<open>metrics.Default.Start\<close> returns nothing), and the two events of the leader-election
  library, which calls \<open>OnStartedLeading\<close> in a new goroutine when the lease is
  acquired and \<open>OnStoppedLeading\<close> when leadership is lost.
\<close>

datatype label =
    StepMain
  | StepCallback
  | Begin goroutine
  | Returns goroutine "string option"
  | Acquired
  | Lost

text \<open>
  \<open>wg.Wait()\<close> blocks until the counter is zero. \<open>RunOrDie\<close> does not return by
  itself: the library leaves it only through \<open>Lost\<close>, when it calls
  \<open>OnStoppedLeading\<close> in the goroutine that entered it; what follows \<open>RunOrDie\<close>
  comes after the callback. The process ends with the first \<open>Fatalf\<close> or panic: no
  step is possible once \<open>exited\<close> holds.
\<close>

fun enabled :: "action \<Rightarrow> proc \<Rightarrow> bool" where
  "enabled WgWait s = (wg s = 0)"
| "enabled (RunOrDie rl ld rd rp on off) s = False"
| "enabled a s = True"

fun effect :: "action \<Rightarrow> proc \<Rightarrow> proc" where
  "effect (WgAdd k) s = s\<lparr>wg := wg s + k\<rparr>"
| "effect (Go g) s = s\<lparr>launched := launched s @ [g]\<rparr>"
| "effect (Fatalf f as) s = s\<lparr>exited := True\<rparr>"
| "effect (Panic m) s = s\<lparr>exited := True\<rparr>"
| "effect a s = s"

definition perform :: "action \<Rightarrow> proc \<Rightarrow> proc" where
  "perform a s = effect a (s\<lparr>out := out s @ [a]\<rparr>)"

text \<open>
  The deferred \<open>wg.Done()\<close> of a worker goroutine; the wait group panics when its
  counter would become negative.
\<close>

definition wg_Done :: "proc \<Rightarrow> proc" where
  "wg_Done s =
     (if wg s = 0 then perform (Panic ''sync: negative WaitGroup counter'') s
      else s\<lparr>wg := wg s - 1\<rparr>)"

text \<open>What a worker goroutine does when it begins, up to the call in which it blocks.\<close>

fun begins :: "goroutine \<Rightarrow> action list" where
  "begins MetricsStart = [Call_metrics_Start]"
| "begins (ControllerRun n workers) =
     [Infof ''Starting %s controller'' [S n], Call_Runnable n workers]"

text \<open>
  What a worker goroutine does when its call returns. \<open>glog.Fatalf\<close> exits the
  process at once, so the deferred \<open>wg.Done()\<close> does not run after it.
\<close>

fun returns :: "goroutine \<Rightarrow> string option \<Rightarrow> proc \<Rightarrow> proc" where
  "returns MetricsStart r s = wg_Done s"
| "returns (ControllerRun n workers) (Some err) s =
     perform (Fatalf ''error running %s controller: %s'' [S n, S err]) s"
| "returns (ControllerRun n workers) None s = wg_Done s"

definition step_thread :: "action list \<Rightarrow> (action list \<Rightarrow> proc \<Rightarrow> proc) \<Rightarrow> proc \<Rightarrow> proc option" where
  "step_thread th upd s =
     (case th of
        [] \<Rightarrow> None
      | a # rest \<Rightarrow> if enabled a s then Some (perform a (upd rest s)) else None)"

definition step :: "label \<Rightarrow> proc \<Rightarrow> proc option" where
  "step l s =
    (if exited s then None
     else case l of
       StepMain \<Rightarrow> step_thread (main s) (\<lambda>rest s. s\<lparr>main := rest\<rparr>) s
     | StepCallback \<Rightarrow> step_thread (callback s) (\<lambda>rest s. s\<lparr>callback := rest\<rparr>) s
     | Begin g \<Rightarrow>
         if g \<in> set (launched s)
         then Some (s\<lparr>launched := remove1 g (launched s), running := running s @ [g],
                      out := out s @ begins g\<rparr>)
         else None
     | Returns g r \<Rightarrow>
         if g \<in> set (running s)
         then Some (returns g r (s\<lparr>running := remove1 g (running s)\<rparr>))
         else None
     | Acquired \<Rightarrow>
         (case main s of
            RunOrDie rl ld rd rp on off # rest \<Rightarrow>
              if acquired s then None else Some (s\<lparr>acquired := True, callback := on\<rparr>)
          | _ \<Rightarrow> None)
     | Lost \<Rightarrow>
         (case main s of
            RunOrDie rl ld rd rp on off # rest \<Rightarrow>
              Some (s\<lparr>main := off @ rest\<rparr>)
          | _ \<Rightarrow> None))"

fun exec :: "label list \<Rightarrow> proc \<Rightarrow> proc option" where
  "exec [] s = Some s"
| "exec (l # ls) s = (case step l s of None \<Rightarrow> None | Some s' \<Rightarrow> exec ls s')"

text \<open>The process when \<open>Run\<close> is called, and the states it can reach.\<close>

definition init :: "'q env \<Rightarrow> ControllerOptions \<Rightarrow> proc" where
  "init e opts = \<lparr>main = Run e opts, callback = [], acquired = False, wg = 0,
                   launched = [], running = [], out = [], exited = False\<rparr>"

definition reachable :: "'q env \<Rightarrow> ControllerOptions \<Rightarrow> proc \<Rightarrow> bool" where
  "reachable e opts s = (\<exists>ls. exec ls (init e opts) = Some s)"

subsection \<open>Reading a sequence of actions\<close>

text \<open>
  An action that launches a worker goroutine, at once or in a callback handed to the
  leader-election library.
\<close>

fun launches :: "action \<Rightarrow> bool" where
  "launches (Go g) = True"
| "launches (RunOrDie rl ld rd rp on off) = (list_ex launches on \<or> list_ex launches off)"
| "launches a = False"

text \<open>
  An action of the leader-election path of \<open>Run\<close>: building the client whose
  configuration carries the added user agent, reading the host name for the identity,
  and entering the library, which is what tries to acquire the lease.
\<close>

fun is_leader_election :: "action \<Rightarrow> bool" where
  "is_leader_election (Call_kubernetes_NewForConfig (AddUserAgent c ua)) = True"
| "is_leader_election Call_Hostname = True"
| "is_leader_election (RunOrDie rl ld rd rp on off) = True"
| "is_leader_election a = False"

fun is_factory_start :: "action \<Rightarrow> bool" where
  "is_factory_start (SharedInformerFactory_Start f) = True"
| "is_factory_start (KubeSharedInformerFactory_Start f) = True"
| "is_factory_start a = False"

text \<open>The controllers for which a sequence of actions launches a goroutine.\<close>

fun started :: "action list \<Rightarrow> string list" where
  "started [] = []"
| "started (Go (ControllerRun n workers) # as) = n # started as"
| "started (a # as) = started as"

text \<open>
  Every worker that an action launches or calls, also inside a callback, satisfies
  \<open>P\<close>.
\<close>

fun every :: "(goroutine \<Rightarrow> bool) \<Rightarrow> action \<Rightarrow> bool" where
  "every P (Go g) = P g"
| "every P (Call_Runnable n workers) = P (ControllerRun n workers)"
| "every P Call_metrics_Start = P MetricsStart"
| "every P (RunOrDie rl ld rd rp on off) = (list_all (every P) on \<and> list_all (every P) off)"
| "every P a = True"

text \<open>A worker with five workers of its own; a worker the options allow.\<close>

fun five :: "goroutine \<Rightarrow> bool" where
  "five MetricsStart = True"
| "five (ControllerRun n workers) = (workers = 5)"

fun allowed :: "string list \<Rightarrow> ControllerOptions \<Rightarrow> goroutine \<Rightarrow> bool" where
  "allowed known opts MetricsStart = True"
| "allowed known opts (ControllerRun n workers) =
     (n \<in> (set known \<inter> set (EnabledControllers opts))
            - (if Namespace opts \<noteq> [] then {clusterissuers_ControllerName} else {}))"

text \<open>
  The bookkeeping of the wait group along a sequence of actions: \<open>owed\<close> is the number
  of \<open>go\<close> statements minus the units added by \<open>wg.Add\<close>; in a \<open>paired\<close> sequence
  every \<open>go\<close> statement has its \<open>wg.Add(1)\<close> before it, and so have the callbacks.
\<close>

fun owed :: "action list \<Rightarrow> int" where
  "owed [] = 0"
| "owed (WgAdd k # as) = owed as - int k"
| "owed (Go g # as) = owed as + 1"
| "owed (a # as) = owed as"

fun paired :: "action list \<Rightarrow> bool" where
  "paired [] = True"
| "paired (RunOrDie rl ld rd rp on off # as) =
     (paired on \<and> owed on = 0 \<and> paired off \<and> owed off = 0 \<and> 0 \<le> owed as \<and> paired as)"
| "paired (a # as) = (0 \<le> owed (a # as) \<and> paired as)"

text \<open>The four quantity options, each with the name of its field, in the order parsed.\<close>

definition quantity_fields :: "ControllerOptions \<Rightarrow> (string \<times> string) list" where
  "quantity_fields opts =
     [(''ACMEHTTP01SolverResourceRequestCPU'', ACMEHTTP01SolverResourceRequestCPU opts),
      (''ACMEHTTP01SolverResourceRequestMemory'', ACMEHTTP01SolverResourceRequestMemory opts),
      (''ACMEHTTP01SolverResourceLimitsCPU'', ACMEHTTP01SolverResourceLimitsCPU opts),
      (''ACMEHTTP01SolverResourceLimitsMemory'', ACMEHTTP01SolverResourceLimitsMemory opts)]"

subsection \<open>Notions used in the proofs\<close>

text \<open>
  The actions of \<open>buildControllerContext\<close> before the first and after the last
  quantity is parsed.
\<close>

definition build_prefix :: "'q env \<Rightarrow> ControllerOptions \<Rightarrow> action list" where
  "build_prefix e opts =
     [Call_KubeConfig (APIServerHost opts),
      Call_clientset_NewForConfig (RestConfig (APIServerHost opts)),
      Call_kubernetes_NewForConfig (RestConfig (APIServerHost opts)),
      Infof ''Using the following nameservers for DNS01 checks: %v''
        [L (if length (DNS01RecursiveNameservers opts) = 0 then RecursiveNameservers e
            else DNS01RecursiveNameservers opts)]]"

definition build_suffix :: "ControllerOptions \<Rightarrow> action list" where
  "build_suffix opts =
     [AddToScheme, V4_Info ''Creating event broadcaster'', NewBroadcaster, StartLogging,
      StartRecordingToSink (KubeClientset (RestConfig (APIServerHost opts))),
      Call_NewRecorder controllerAgentName,
      Call_informers_NewFilteredSharedInformerFactory
        (CMClientset (RestConfig (APIServerHost opts))) (time_Second * 30) (Namespace opts),
      Call_kubeinformers_NewFilteredSharedInformerFactory
        (KubeClientset (RestConfig (APIServerHost opts))) (time_Second * 30) (Namespace opts)]"

text \<open>A call of \<open>RunOrDie\<close> whose \<open>OnStoppedLeading\<close> is the fatal log line alone.\<close>

fun stops_fatally :: "action \<Rightarrow> bool" where
  "stops_fatally (RunOrDie rl ld rd rp on off) = (off = [Fatalf ''leaderelection lost'' []])"
| "stops_fatally a = True"

text \<open>Invariants of the process, each kept by every step.\<close>

definition no_election :: "proc \<Rightarrow> bool" where
  "no_election s = (\<not> list_ex is_leader_election (main s) \<and> callback s = [] \<and> \<not> acquired s)"

definition workers_all :: "(goroutine \<Rightarrow> bool) \<Rightarrow> proc \<Rightarrow> bool" where
  "workers_all P s = (list_all (every P) (main s) \<and> list_all (every P) (callback s)
     \<and> list_all (every P) (out s) \<and> list_all P (launched s) \<and> list_all P (running s))"

definition idle :: "proc \<Rightarrow> bool" where
  "idle s = (\<not> list_ex launches (main s) \<and> \<not> list_ex launches (callback s)
     \<and> launched s = [] \<and> running s = [])"

definition fatal_on_loss :: "proc \<Rightarrow> bool" where
  "fatal_on_loss s = list_all stops_fatally (main s)"

definition balanced :: "proc \<Rightarrow> bool" where
  "balanced s =
     (exited s \<or>
      (paired (main s) \<and> paired (callback s) \<and> (\<not> acquired s \<longrightarrow> callback s = [])
       \<and> int (wg s) = int (length (launched s)) + int (length (running s))
            + owed (main s) + owed (callback s)))"

subsection \<open>Example inputs\<close>

text \<open>
  An environment in which every external call succeeds, except that the quantity
  parser rejects the string "not-a-quantity"; a quantity is kept as its string.
\<close>

definition example_env :: "string env" where
  "example_env = \<lparr>
     KubeConfig = (\<lambda>host. None),
     clientset_NewForConfig = (\<lambda>c. None),
     kubernetes_NewForConfig = (\<lambda>c. None),
     ParseQuantity = (\<lambda>s. if s = ''not-a-quantity'' then Inl ''unable to parse quantity'' else Inr s),
     RecursiveNameservers = [''8.8.8.8:53'', ''8.8.4.4:53''],
     Known = [''issuers'', ''certificates'', ''clusterissuers''],
     Hostname = Inr ''node-1''\<rparr>"

definition example_opts :: ControllerOptions where
  "example_opts = \<lparr>
     APIServerHost = '''',
     ControllerOptions.Namespace = '''',
     EnabledControllers = [''issuers'', ''certificates'', ''clusterissuers''],
     LeaderElect = False,
     LeaderElectionNamespace = ''kube-system'',
     LeaderElectionLeaseDuration = 60 * time_Second,
     LeaderElectionRenewDeadline = 40 * time_Second,
     LeaderElectionRetryPeriod = 15 * time_Second,
     ACMEHTTP01SolverImage = ''acmesolver'',
     ACMEHTTP01SolverResourceRequestCPU = ''10m'',
     ACMEHTTP01SolverResourceRequestMemory = ''64Mi'',
     ACMEHTTP01SolverResourceLimitsCPU = ''10m'',
     ACMEHTTP01SolverResourceLimitsMemory = ''64Mi'',
     DNS01RecursiveNameservers = [],
     DNS01RecursiveNameserversOnly = False,
     ControllerOptions.ClusterIssuerAmbientCredentials = True,
     ControllerOptions.IssuerAmbientCredentials = False,
     ControllerOptions.ClusterResourceNamespace = ''kube-system'',
     ControllerOptions.RenewBeforeExpiryDuration = 2592000 * time_Second,
     ControllerOptions.DefaultIssuerName = '''',
     ControllerOptions.DefaultIssuerKind = ''Issuer'',
     ControllerOptions.DefaultAutoCertificateAnnotations = [''kubernetes.io/tls-acme''],
     ControllerOptions.DefaultACMEIssuerChallengeType = ''http01'',
     ControllerOptions.DefaultACMEIssuerDNS01ProviderName = '''',
     EnableCertificateOwnerRef = False\<rparr>"

text \<open>The context \<open>buildControllerContext\<close> returns for the example inputs.\<close>

definition example_ctx :: "string Context" where
  "example_ctx =
     (case snd (buildControllerContext example_env example_opts) of
        Inr (ctx, cfg) \<Rightarrow> ctx)"

text \<open>Scenario B of the specification: the same, scoped to the namespace "team-a".\<close>

definition scoped_opts :: ControllerOptions where
  "scoped_opts = example_opts\<lparr>ControllerOptions.Namespace := ''team-a''\<rparr>"

definition scoped_ctx :: "string Context" where
  "scoped_ctx =
     (case snd (buildControllerContext example_env scoped_opts) of
        Inr (ctx, cfg) \<Rightarrow> ctx)"

text \<open>Scenario C: the CPU request of the solver is not a quantity.\<close>

definition bad_opts :: ControllerOptions where
  "bad_opts = example_opts\<lparr>ACMEHTTP01SolverResourceRequestCPU := ''not-a-quantity''\<rparr>"

text \<open>The example with leader election enabled.\<close>

definition elect_opts :: ControllerOptions where
  "elect_opts = example_opts\<lparr>LeaderElect := True\<rparr>"

text \<open>
  An execution of the example: the goroutine of \<open>Run\<close> goes on until it blocks in
  \<open>wg.Wait()\<close>, then the workers of "issuers" and "certificates" begin. In the state
  \<open>supervised\<close> both are running. From there the runnable of "issuers" returns nil
  (\<open>after_clean_return\<close>) or an error (\<open>after_error\<close>).
\<close>

definition schedule :: "label list" where
  "schedule = replicate 30 StepMain
     @ [Begin (ControllerRun ''issuers'' 5), Begin (ControllerRun ''certificates'' 5)]"

definition supervised :: proc where
  "supervised = the (exec schedule (init example_env example_opts))"

definition after_clean_return :: proc where
  "after_clean_return = the (step (Returns (ControllerRun ''issuers'' 5) None) supervised)"

definition after_error :: proc where
  "after_error =
     the (step (Returns (ControllerRun ''issuers'' 5) (Some ''boom'')) supervised)"

text \<open>
  An execution with leader election: the goroutine of \<open>Run\<close> goes on until it is
  inside \<open>RunOrDie\<close> (\<open>electing\<close>); then leadership is lost and the goroutine takes
  its next step (\<open>lost\<close>).
\<close>

definition electing_schedule :: "label list" where
  "electing_schedule = replicate 18 StepMain"

definition electing :: proc where
  "electing = the (exec electing_schedule (init example_env elect_opts))"

definition example_lock :: ConfigMapLock where
  "example_lock = \<lparr>lock_Namespace = ''kube-system'',
     lock_Name = ''cert-manager-controller'',
     lock_Client = KubeClientset (AddUserAgent (RestConfig []) ''leader-election''),
     lock_Identity = ''node-1-external-cert-manager-controller'',
     lock_EventRecorder = NewRecorder ''cert-manager''\<rparr>"

definition lost :: proc where
  "lost = the (exec [Lost, StepMain] electing)"

section \<open>Properties\<close>

subsection \<open>The outcomes of buildControllerContext\<close>

lemma build_outcome:
  fixes e :: "'q env"
  defines "a \<equiv> ACMEHTTP01SolverResourceRequestCPU"
    and "b \<equiv> ACMEHTTP01SolverResourceRequestMemory"
    and "c \<equiv> ACMEHTTP01SolverResourceLimitsCPU"
    and "d \<equiv> ACMEHTTP01SolverResourceLimitsMemory"
  shows
  "(\<exists>err. buildControllerContext e opts =
      ([Call_KubeConfig (APIServerHost opts)], Inl (''error creating rest config: '' @ err)))
   \<or> (\<exists>err. buildControllerContext e opts =
      (take 2 (build_prefix e opts), Inl (''error creating internal group client: '' @ err)))
   \<or> (\<exists>err. buildControllerContext e opts =
      (take 3 (build_prefix e opts), Inl (''error creating kubernetes client: '' @ err)))
   \<or> (\<exists>err. ParseQuantity e (a opts) = Inl err \<and> buildControllerContext e opts =
      (build_prefix e opts @ map Call_ParseQuantity [a opts],
       Inl (''error parsing ACMEHTTP01SolverResourceRequestCPU: '' @ err)))
   \<or> (\<exists>err qa. ParseQuantity e (a opts) = Inr qa \<and> ParseQuantity e (b opts) = Inl err
        \<and> buildControllerContext e opts =
      (build_prefix e opts @ map Call_ParseQuantity [a opts, b opts],
       Inl (''error parsing ACMEHTTP01SolverResourceRequestMemory: '' @ err)))
   \<or> (\<exists>err qa qb. ParseQuantity e (a opts) = Inr qa \<and> ParseQuantity e (b opts) = Inr qb
        \<and> ParseQuantity e (c opts) = Inl err \<and> buildControllerContext e opts =
      (build_prefix e opts @ map Call_ParseQuantity [a opts, b opts, c opts],
       Inl (''error parsing ACMEHTTP01SolverResourceLimitsCPU: '' @ err)))
   \<or> (\<exists>err qa qb qc. ParseQuantity e (a opts) = Inr qa \<and> ParseQuantity e (b opts) = Inr qb
        \<and> ParseQuantity e (c opts) = Inr qc \<and> ParseQuantity e (d opts) = Inl err
        \<and> buildControllerContext e opts =
      (build_prefix e opts @ map Call_ParseQuantity [a opts, b opts, c opts, d opts],
       Inl (''error parsing ACMEHTTP01SolverResourceLimitsMemory: '' @ err)))
   \<or> (\<exists>ctx qa qb qc qd. ParseQuantity e (a opts) = Inr qa \<and> ParseQuantity e (b opts) = Inr qb
        \<and> ParseQuantity e (c opts) = Inr qc \<and> ParseQuantity e (d opts) = Inr qd
        \<and> buildControllerContext e opts =
      (build_prefix e opts @ map Call_ParseQuantity [a opts, b opts, c opts, d opts]
         @ build_suffix opts,
       Inr (ctx, RestConfig (APIServerHost opts))))"
  unfolding a_def b_def c_def d_def
  by (simp add: buildControllerContext_def Let_def build_prefix_def build_suffix_def
      split: sum.split option.split)

lemma build_trace_plain:
  "\<not> list_ex is_leader_election (fst (buildControllerContext e opts))"
  "\<not> list_ex launches (fst (buildControllerContext e opts))"
  "list_all (every P) (fst (buildControllerContext e opts))"
  "paired (fst (buildControllerContext e opts))"
  "owed (fst (buildControllerContext e opts)) = 0"
  "list_all stops_fatally (fst (buildControllerContext e opts))"
  by (simp_all add: buildControllerContext_def Let_def split: sum.split option.split)

lemma build_Inr:
  assumes "snd (buildControllerContext e opts) = Inr (ctx, cfg)"
  shows "DNS01Nameservers (ACMEOptions ctx) =
          (if DNS01RecursiveNameservers opts = [] then RecursiveNameservers e
           else DNS01RecursiveNameservers opts)"
    and "DNS01CheckAuthoritative (ACMEOptions ctx) = (\<not> DNS01RecursiveNameserversOnly opts)"
    and "Context.Namespace ctx = Namespace opts"
    and "cfg = RestConfig (APIServerHost opts)"
  using assms
  by (auto simp: buildControllerContext_def Let_def split: sum.splits option.splits)

lemma build_ok_form:
  assumes "snd (buildControllerContext e opts) = Inr (ctx, cfg)"
  shows "(\<exists>qa. ParseQuantity e (ACMEHTTP01SolverResourceRequestCPU opts) = Inr qa)
       \<and> (\<exists>qb. ParseQuantity e (ACMEHTTP01SolverResourceRequestMemory opts) = Inr qb)
       \<and> (\<exists>qc. ParseQuantity e (ACMEHTTP01SolverResourceLimitsCPU opts) = Inr qc)
       \<and> (\<exists>qd. ParseQuantity e (ACMEHTTP01SolverResourceLimitsMemory opts) = Inr qd)
       \<and> fst (buildControllerContext e opts) =
           build_prefix e opts
           @ map (\<lambda>(f, v). Call_ParseQuantity v) (quantity_fields opts)
           @ build_suffix opts"
  using build_outcome[of e opts] assms
  by (elim disjE exE conjE) (simp_all add: quantity_fields_def)

lemma build_parsed:
  assumes "snd (buildControllerContext e opts) = Inr (ctx, cfg)"
  shows "(\<forall>(f, v) \<in> set (quantity_fields opts). \<exists>q. ParseQuantity e v = Inr q)
       \<and> (\<exists>pre post. fst (buildControllerContext e opts) =
             pre @ map (\<lambda>(f, v). Call_ParseQuantity v) (quantity_fields opts) @ post
             \<and> \<not> list_ex launches pre)"
proof
  from build_ok_form[OF assms]
  show "\<forall>(f, v) \<in> set (quantity_fields opts). \<exists>q. ParseQuantity e v = Inr q"
    by (simp add: quantity_fields_def)
  have "\<not> list_ex launches (build_prefix e opts)"
    by (simp add: build_prefix_def)
  with build_ok_form[OF assms]
  show "\<exists>pre post. fst (buildControllerContext e opts) =
             pre @ map (\<lambda>(f, v). Call_ParseQuantity v) (quantity_fields opts) @ post
             \<and> \<not> list_ex launches pre"
    by blast
qed

lemma build_names_field_cases:
  assumes "Call_ParseQuantity v \<in> set (fst (buildControllerContext e opts))"
    and "ParseQuantity e v = Inl err"
  shows "(v = ACMEHTTP01SolverResourceRequestCPU opts \<and> snd (buildControllerContext e opts) =
            Inl (''error parsing ACMEHTTP01SolverResourceRequestCPU: '' @ err))
       \<or> (v = ACMEHTTP01SolverResourceRequestMemory opts \<and> snd (buildControllerContext e opts) =
            Inl (''error parsing ACMEHTTP01SolverResourceRequestMemory: '' @ err))
       \<or> (v = ACMEHTTP01SolverResourceLimitsCPU opts \<and> snd (buildControllerContext e opts) =
            Inl (''error parsing ACMEHTTP01SolverResourceLimitsCPU: '' @ err))
       \<or> (v = ACMEHTTP01SolverResourceLimitsMemory opts \<and> snd (buildControllerContext e opts) =
            Inl (''error parsing ACMEHTTP01SolverResourceLimitsMemory: '' @ err))"
  using build_outcome[of e opts] assms
  by (elim disjE exE conjE) (auto simp: build_prefix_def build_suffix_def)

lemma build_names_field:
  assumes "Call_ParseQuantity v \<in> set (fst (buildControllerContext e opts))"
    and "ParseQuantity e v = Inl err"
  shows "\<exists>f. (f, v) \<in> set (quantity_fields opts)
           \<and> snd (buildControllerContext e opts) = Inl (''error parsing '' @ f @ '': '' @ err)"
  using build_names_field_cases[OF assms]
proof (elim disjE conjE)
  assume "v = ACMEHTTP01SolverResourceRequestCPU opts"
    "snd (buildControllerContext e opts) =
       Inl (''error parsing ACMEHTTP01SolverResourceRequestCPU: '' @ err)"
  then show ?thesis
    by (intro exI[of _ "''ACMEHTTP01SolverResourceRequestCPU''"]) (simp add: quantity_fields_def)
next
  assume "v = ACMEHTTP01SolverResourceRequestMemory opts"
    "snd (buildControllerContext e opts) =
       Inl (''error parsing ACMEHTTP01SolverResourceRequestMemory: '' @ err)"
  then show ?thesis
    by (intro exI[of _ "''ACMEHTTP01SolverResourceRequestMemory''"]) (simp add: quantity_fields_def)
next
  assume "v = ACMEHTTP01SolverResourceLimitsCPU opts"
    "snd (buildControllerContext e opts) =
       Inl (''error parsing ACMEHTTP01SolverResourceLimitsCPU: '' @ err)"
  then show ?thesis
    by (intro exI[of _ "''ACMEHTTP01SolverResourceLimitsCPU''"]) (simp add: quantity_fields_def)
next
  assume "v = ACMEHTTP01SolverResourceLimitsMemory opts"
    "snd (buildControllerContext e opts) =
       Inl (''error parsing ACMEHTTP01SolverResourceLimitsMemory: '' @ err)"
  then show ?thesis
    by (intro exI[of _ "''ACMEHTTP01SolverResourceLimitsMemory''"]) (simp add: quantity_fields_def)
qed

lemma build_rejects:
  assumes "(f, v) \<in> set (quantity_fields opts)" "ParseQuantity e v = Inl err"
  shows "\<exists>msg. snd (buildControllerContext e opts) = Inl msg"
  using build_outcome[of e opts] assms
  by (elim disjE exE conjE) (auto simp: quantity_fields_def)

lemma example_build:
  "buildControllerContext example_env example_opts =
     (fst (buildControllerContext example_env example_opts), Inr (example_ctx, RestConfig []))"
  by (simp add: example_ctx_def buildControllerContext_def example_env_def example_opts_def Let_def)

lemma example_built:
  "snd (buildControllerContext example_env example_opts) = Inr (example_ctx, RestConfig [])"
  using example_build by (metis snd_conv)

lemma scoped_build:
  "buildControllerContext example_env scoped_opts =
     (fst (buildControllerContext example_env scoped_opts), Inr (scoped_ctx, RestConfig []))"
  by (simp add: scoped_ctx_def scoped_opts_def buildControllerContext_def example_env_def
      example_opts_def Let_def)

lemma bad_build:
  "buildControllerContext example_env bad_opts =
     (build_prefix example_env bad_opts @ [Call_ParseQuantity ''not-a-quantity''],
      Inl ''error parsing ACMEHTTP01SolverResourceRequestCPU: unable to parse quantity'')"
  by (simp add: buildControllerContext_def bad_opts_def example_opts_def example_env_def
      build_prefix_def Let_def)

text \<open>
  Claim C9. Whenever \<open>buildControllerContext\<close> returns a context, its
  \<open>ACMEOptions.DNS01Nameservers\<close> is the package default
  \<open>dnsutil.RecursiveNameservers\<close> if the option \<open>DNS01RecursiveNameservers\<close> is
  empty, and the option's list itself otherwise.
\<close>

theorem C9_nameservers_default:
  assumes "snd (buildControllerContext e opts) = Inr (ctx, cfg)"
  shows "DNS01Nameservers (ACMEOptions ctx) =
          (if DNS01RecursiveNameservers opts = [] then RecursiveNameservers e
           else DNS01RecursiveNameservers opts)"
  using assms by (rule build_Inr(1))

theorem C9_nameservers_default_witness:
  "snd (buildControllerContext example_env example_opts) = Inr (example_ctx, RestConfig [])
   \<and> DNS01RecursiveNameservers example_opts = []
   \<and> DNS01Nameservers (ACMEOptions example_ctx) = [''8.8.8.8:53'', ''8.8.4.4:53'']"
proof -
  note h = example_built
  from C9_nameservers_default[OF h] show ?thesis
    using h by (simp add: example_opts_def example_env_def)
qed

text \<open>
  Claim C10. Whenever \<open>buildControllerContext\<close> returns a context, its
  \<open>ACMEOptions.DNS01CheckAuthoritative\<close> is the negation of the option
  \<open>DNS01RecursiveNameserversOnly\<close>.
\<close>

theorem C10_check_authoritative:
  assumes "snd (buildControllerContext e opts) = Inr (ctx, cfg)"
  shows "DNS01CheckAuthoritative (ACMEOptions ctx) = (\<not> DNS01RecursiveNameserversOnly opts)"
  using assms by (rule build_Inr(2))

theorem C10_check_authoritative_witness:
  "snd (buildControllerContext example_env example_opts) = Inr (example_ctx, RestConfig [])
   \<and> \<not> DNS01RecursiveNameserversOnly example_opts
   \<and> DNS01CheckAuthoritative (ACMEOptions example_ctx)"
proof -
  note h = example_built
  from C10_check_authoritative[OF h] show ?thesis
    using h by (simp add: example_opts_def)
qed

subsection \<open>The actions of run and Run\<close>

lemma started_append: "started (xs @ ys) = started xs @ started ys"
  by (induction xs rule: started.induct) auto


lemma started_launch_controllers:
  "set (started (launch_controllers opts ctx ns)) =
     {n \<in> set ns. n \<in> set (EnabledControllers opts) \<and>
        \<not> (Context.Namespace ctx \<noteq> [] \<and> n = clusterissuers_ControllerName)}"
  by (induction ns) (auto simp: util_Contains_def controller_goroutine_def)

lemma started_run: "started (run opts ctx known) = started (launch_controllers opts ctx known)"
  by (simp add: run_def started_append)

lemma launch_controllers_plain:
  "\<not> list_ex is_factory_start (launch_controllers opts ctx ns)"
  "WgWait \<notin> set (launch_controllers opts ctx ns)"
  "\<not> list_ex is_leader_election (launch_controllers opts ctx ns)"
  "list_all (every five) (launch_controllers opts ctx ns)"
  "list_all stops_fatally (launch_controllers opts ctx ns)"
  by (induction ns) (auto simp: controller_goroutine_def)

lemma run_plain:
  "\<not> list_ex is_leader_election (run opts ctx known)"
  "list_all (every five) (run opts ctx known)"
  "list_all stops_fatally (run opts ctx known)"
  by (simp_all add: run_def launch_controllers_plain)

lemma launch_controllers_allowed:
  assumes "Context.Namespace ctx = Namespace opts" "set ns \<subseteq> set known"
  shows "list_all (every (allowed known opts)) (launch_controllers opts ctx ns)"
  using assms
  by (induction ns) (auto simp: controller_goroutine_def util_Contains_def)

lemma run_every:
  assumes "P MetricsStart" "list_all (every P) (launch_controllers opts ctx known)"
  shows "list_all (every P) (run opts ctx known)"
  using assms by (simp add: run_def)

lemma owed_append: "owed (xs @ ys) = owed xs + owed ys"
  by (induction xs rule: owed.induct) auto

lemma paired_owed: "paired xs \<Longrightarrow> 0 \<le> owed xs"
  by (induction xs rule: paired.induct) auto

lemma paired_tl: "paired (a # as) \<Longrightarrow> paired as"
  by (cases a) auto

lemma paired_append: "paired xs \<Longrightarrow> paired ys \<Longrightarrow> paired (xs @ ys)"
  by (induction xs rule: paired.induct) (auto simp: owed_append dest: paired_owed)

lemma launch_controllers_paired:
  "paired (launch_controllers opts ctx ns) \<and> owed (launch_controllers opts ctx ns) = 0"
  by (induction ns) (auto simp: owed_append)

lemma run_paired: "paired (run opts ctx known) \<and> owed (run opts ctx known) = 0"
  using launch_controllers_paired[of opts ctx known]
  by (auto simp: run_def owed_append intro!: paired_append)

lemma Run_no_election:
  assumes "\<not> LeaderElect opts"
  shows "\<not> list_ex is_leader_election (Run e opts)"
proof (cases "buildControllerContext e opts")
  case (Pair t r)
  with build_trace_plain(1)[of e opts] have t: "\<not> list_ex is_leader_election t" by simp
  show ?thesis using assms t Pair
    by (cases r) (auto simp: Run_def run_plain)
qed

lemma Run_direct:
  assumes "\<not> LeaderElect opts" "snd (buildControllerContext e opts) = Inr (ctx, cfg)"
  shows "Run e opts = fst (buildControllerContext e opts) @ run opts ctx (Known e)"
  using assms by (cases "buildControllerContext e opts") (auto simp: Run_def)

lemma Run_build_error:
  assumes "snd (buildControllerContext e opts) = Inl msg"
  shows "Run e opts = fst (buildControllerContext e opts) @ [Fatalf msg []]"
  using assms by (cases "buildControllerContext e opts") (auto simp: Run_def)

lemma Run_build_ok:
  assumes "snd (buildControllerContext e opts) = Inr (ctx, cfg)"
  shows "\<exists>post. Run e opts = fst (buildControllerContext e opts) @ post"
  using assms
  by (cases "buildControllerContext e opts") (auto simp: Run_def Let_def split: option.splits)

lemma Run_launches_built:
  assumes "list_ex launches (Run e opts)"
  shows "\<exists>ctx cfg. snd (buildControllerContext e opts) = Inr (ctx, cfg)"
proof (cases "snd (buildControllerContext e opts)")
  case (Inl msg)
  from Run_build_error[OF Inl] build_trace_plain(2)[of e opts] assms show ?thesis by simp
next
  case (Inr p)
  then show ?thesis by (cases p) simp
qed

lemma Run_every:
  assumes "P MetricsStart"
    and "\<And>ctx cfg. snd (buildControllerContext e opts) = Inr (ctx, cfg) \<Longrightarrow>
           list_all (every P) (launch_controllers opts ctx (Known e))"
  shows "list_all (every P) (Run e opts)"
proof (cases "buildControllerContext e opts")
  case (Pair t r)
  with build_trace_plain(3)[of P e opts] have t: "list_all (every P) t" by simp
  show ?thesis
  proof (cases r)
    case (Inl msg)
    with t Pair show ?thesis by (simp add: Run_def)
  next
    case (Inr p)
    obtain ctx cfg where p: "p = (ctx, cfg)" by (cases p)
    with Pair Inr have "snd (buildControllerContext e opts) = Inr (ctx, cfg)" by simp
    then have "list_all (every P) (launch_controllers opts ctx (Known e))" by (rule assms(2))
    with assms(1) have "list_all (every P) (run opts ctx (Known e))" by (rule run_every)
    with t Pair Inr p show ?thesis
      by (auto simp: Run_def Let_def startLeaderElection_def and_then_def
        split: option.splits sum.splits)
  qed
qed


lemma Run_allowed: "list_all (every (allowed (Known e) opts)) (Run e opts)"
proof (rule Run_every)
  show "allowed (Known e) opts MetricsStart" by simp
next
  fix ctx cfg
  assume "snd (buildControllerContext e opts) = Inr (ctx, cfg)"
  then have "Context.Namespace ctx = Namespace opts" by (rule build_Inr(3))
  then show "list_all (every (allowed (Known e) opts)) (launch_controllers opts ctx (Known e))"
    by (rule launch_controllers_allowed) simp
qed

lemma Run_stops: "list_all stops_fatally (Run e opts)"
proof (cases "buildControllerContext e opts")
  case (Pair t r)
  with build_trace_plain(6)[of e opts] have t: "list_all stops_fatally t" by simp
  show ?thesis using t Pair
    by (cases r)
      (auto simp: Run_def run_plain Let_def startLeaderElection_def and_then_def
        split: option.splits sum.splits)
qed

lemma Run_paired: "paired (Run e opts) \<and> owed (Run e opts) = 0"
proof (cases "buildControllerContext e opts")
  case (Pair t r)
  with build_trace_plain(4,5)[of e opts] have t: "paired t" "owed t = 0" by simp_all
  show ?thesis
  proof (cases r)
    case (Inl msg)
    with t Pair show ?thesis by (auto simp: Run_def owed_append intro!: paired_append)
  next
    case (Inr p)
    obtain ctx cfg where p: "p = (ctx, cfg)" by (cases p)
    show ?thesis using t Pair Inr p run_paired[of opts ctx "Known e"]
      by (auto simp: Run_def owed_append Let_def startLeaderElection_def and_then_def
          split: option.splits sum.splits intro!: paired_append)
  qed
qed


subsection \<open>Steps of the process\<close>

lemma perform_fields:
  "main (perform a s) = main s"
  "callback (perform a s) = callback s"
  "acquired (perform a s) = acquired s"
  "running (perform a s) = running s"
  "out (perform a s) = out s @ [a]"
  "exited (perform a s) = (exited s \<or> exits a)"
  "wg (perform a s) = (case a of WgAdd k \<Rightarrow> wg s + k | _ \<Rightarrow> wg s)"
  "launched (perform a s) = (case a of Go g \<Rightarrow> launched s @ [g] | _ \<Rightarrow> launched s)"
  by (cases a; simp add: perform_def)+

lemma returns_fields:
  "main (returns g r s) = main s"
  "callback (returns g r s) = callback s"
  "acquired (returns g r s) = acquired s"
  "running (returns g r s) = running s"
  "launched (returns g r s) = launched s"
  by (cases g; cases r; simp add: wg_Done_def perform_fields)+

lemma step_cases [consumes 1, case_names Main Callback Begin Returns Acquired Lost]:
  assumes "step l s = Some s'"
  obtains
    (Main) a rest where "l = StepMain" "\<not> exited s" "main s = a # rest" "enabled a s"
      "s' = perform a (s\<lparr>main := rest\<rparr>)"
  | (Callback) a rest where "l = StepCallback" "\<not> exited s" "callback s = a # rest" "enabled a s"
      "s' = perform a (s\<lparr>callback := rest\<rparr>)"
  | (Begin) g where "l = Begin g" "\<not> exited s" "g \<in> set (launched s)"
      "s' = s\<lparr>launched := remove1 g (launched s), running := running s @ [g],
               out := out s @ begins g\<rparr>"
  | (Returns) g r where "l = Returns g r" "\<not> exited s" "g \<in> set (running s)"
      "s' = returns g r (s\<lparr>running := remove1 g (running s)\<rparr>)"
  | (Acquired) rl ld rd rp on off rest where "l = Acquired" "\<not> exited s"
      "main s = RunOrDie rl ld rd rp on off # rest" "\<not> acquired s"
      "s' = s\<lparr>acquired := True, callback := on\<rparr>"
  | (Lost) rl ld rd rp on off rest where "l = Lost" "\<not> exited s"
      "main s = RunOrDie rl ld rd rp on off # rest"
      "s' = s\<lparr>main := off @ rest\<rparr>"
  using assms
  by (cases l) (auto simp: step_def step_thread_def split: if_splits list.splits action.splits)

lemma step_exited: "exited s \<Longrightarrow> step l s = None"
  by (simp add: step_def)

lemma exec_append:
  "exec (ls @ ms) s = (case exec ls s of None \<Rightarrow> None | Some s' \<Rightarrow> exec ms s')"
  by (induction ls arbitrary: s) (auto split: option.splits)

lemma reachable_induct [consumes 1, case_names init step]:
  assumes "reachable e opts s"
    and "P (init e opts)"
    and "\<And>s l s'. reachable e opts s \<Longrightarrow> P s \<Longrightarrow> step l s = Some s' \<Longrightarrow> P s'"
  shows "P s"
proof -
  from assms(1) obtain ls where "exec ls (init e opts) = Some s"
    by (auto simp: reachable_def)
  then show ?thesis
  proof (induction ls arbitrary: s rule: rev_induct)
    case Nil
    then show ?case using assms(2) by simp
  next
    case (snoc l ls)
    then obtain s0 where s0: "exec ls (init e opts) = Some s0" and st: "step l s0 = Some s"
      by (auto simp: exec_append split: option.splits)
    have "reachable e opts s0" using s0 by (auto simp: reachable_def)
    with snoc.IH[OF s0] st show ?case by (rule assms(3)[rotated])
  qed
qed

lemma list_all_remove1: "list_all P xs \<Longrightarrow> list_all P (remove1 x xs)"
  by (induction xs) auto

lemma length_remove1_mem:
  assumes "x \<in> set xs"
  shows "int (length (remove1 x xs)) = int (length xs) - 1"
proof -
  from assms have "1 \<le> length xs" by (cases xs) auto
  with assms show ?thesis by (simp add: length_remove1 of_nat_diff)
qed

subsection \<open>Without leader election nothing of the library happens\<close>

lemma no_election_step:
  assumes "no_election s" "step l s = Some s'"
  shows "no_election s'"
  using assms(2,1)
  by (cases rule: step_cases) (auto simp: no_election_def perform_fields returns_fields)

lemma no_election_reachable:
  assumes "reachable e opts s" "\<not> LeaderElect opts"
  shows "no_election s"
  using assms(1)
proof (induction rule: reachable_induct)
  case init
  then show ?case using Run_no_election[OF assms(2)] by (simp add: no_election_def init_def)
next
  case (step s l s')
  then show ?case by (auto intro: no_election_step)
qed

lemma no_election_blocks:
  assumes "no_election s"
  shows "step Acquired s = None \<and> step Lost s = None \<and> step StepCallback s = None"
  using assms
  by (auto simp: no_election_def step_def step_thread_def split: list.splits action.splits)

subsection \<open>What holds of every launch holds of every worker\<close>


lemma every_Call:
  "list_all (every P) xs \<Longrightarrow> Call_Runnable n w \<in> set xs \<Longrightarrow> P (ControllerRun n w)"
  by (auto simp: list_all_iff)

lemma every_begins: "P g \<Longrightarrow> list_all (every P) (begins g)"
  by (cases g) auto

lemma every_perform:
  assumes "every P a" "list_all (every P) (out s)" "list_all P (launched s)"
  shows "list_all (every P) (out (perform a s)) \<and> list_all P (launched (perform a s))"
  using assms by (cases a) (auto simp: perform_def)

lemma every_returns:
  assumes "list_all (every P) (out s)"
  shows "list_all (every P) (out (returns g r s))"
  using assms by (cases g; cases r) (auto simp: wg_Done_def perform_def)

lemma workers_all_step:
  assumes "workers_all P s" "step l s = Some s'"
  shows "workers_all P s'"
  using assms(2,1)
proof (cases rule: step_cases)
  case (Main a rest)
  then show ?thesis using assms(1) every_perform[of P a "s\<lparr>main := rest\<rparr>"]
    by (auto simp: workers_all_def perform_fields)
next
  case (Callback a rest)
  then show ?thesis using assms(1) every_perform[of P a "s\<lparr>callback := rest\<rparr>"]
    by (auto simp: workers_all_def perform_fields)
next
  case (Begin g)
  with assms(1) have g: "P g" by (auto simp: workers_all_def list_all_iff)
  then have "list_all (every P) (begins g)" by (rule every_begins)
  with g Begin assms(1) show ?thesis
    by (simp add: workers_all_def list_all_remove1)
next
  case (Returns g r)
  then show ?thesis
    using assms(1) every_returns[of P "s\<lparr>running := remove1 g (running s)\<rparr>" g r]
    by (auto simp: workers_all_def returns_fields list_all_remove1)
next
  case (Acquired rl ld rd rp on off rest)
  then show ?thesis using assms(1) by (auto simp: workers_all_def)
next
  case (Lost rl ld rd rp on off rest)
  then show ?thesis using assms(1) by (auto simp: workers_all_def)
qed

lemma workers_all_reachable:
  assumes "reachable e opts s" "list_all (every P) (Run e opts)"
  shows "workers_all P s"
  using assms(1)
proof (induction rule: reachable_induct)
  case init
  then show ?case using assms(2) by (simp add: workers_all_def init_def)
next
  case (step s l s')
  then show ?case by (auto intro: workers_all_step)
qed

subsection \<open>No worker without a go statement\<close>

lemma idle_step:
  assumes "idle s" "step l s = Some s'"
  shows "idle s'"
  using assms(2,1)
proof (cases rule: step_cases)
  case (Main a rest)
  then show ?thesis using assms(1) by (cases a) (auto simp: idle_def perform_def)
next
  case (Callback a rest)
  then show ?thesis using assms(1) by (cases a) (auto simp: idle_def perform_def)
qed (auto simp: idle_def)

lemma idle_reachable:
  assumes "reachable e opts s" "\<not> list_ex launches (Run e opts)"
  shows "idle s"
  using assms(1)
proof (induction rule: reachable_induct)
  case init
  then show ?case using assms(2) by (simp add: idle_def init_def)
next
  case (step s l s')
  then show ?case by (auto intro: idle_step)
qed

subsection \<open>The callback of a lost election\<close>

lemma fatal_on_loss_step:
  assumes "fatal_on_loss s" "step l s = Some s'"
  shows "fatal_on_loss s'"
  using assms(2,1)
  by (cases rule: step_cases) (auto simp: fatal_on_loss_def perform_fields returns_fields)

lemma fatal_on_loss_reachable:
  assumes "reachable e opts s"
  shows "fatal_on_loss s"
  using assms
proof (induction rule: reachable_induct)
  case init
  then show ?case using Run_stops[of e opts] by (simp add: fatal_on_loss_def init_def)
next
  case (step s l s')
  then show ?case by (auto intro: fatal_on_loss_step)
qed

subsection \<open>The wait group counts the workers that have not returned\<close>

lemma balanced_perform:
  assumes "\<not> exited s" "enabled a s0"
    and "paired (a # rest)" "paired (other)"
    and "int (wg s) = int (length (launched s)) + int (length (running s))
            + owed (a # rest) + owed other"
  shows "exited (perform a s) \<or>
     int (wg (perform a s)) = int (length (launched (perform a s)))
        + int (length (running (perform a s))) + owed rest + owed other"
  using assms by (cases a) (auto simp: perform_def)

lemma balanced_step:
  assumes "balanced s" "step l s = Some s'"
  shows "balanced s'"
  using assms(2,1)
proof (cases rule: step_cases)
  case (Main a rest)
  with assms(1) have b: "paired (a # rest)" "paired (callback s)"
    "\<not> acquired s \<longrightarrow> callback s = []"
    "int (wg s) = int (length (launched s)) + int (length (running s))
            + owed (a # rest) + owed (callback s)"
    by (simp_all add: balanced_def)
  from balanced_perform[of "s\<lparr>main := rest\<rparr>" a s rest "callback s"] Main b
  have "exited s' \<or> int (wg s') = int (length (launched s')) + int (length (running s'))
      + owed rest + owed (callback s)" by simp
  with b Main show ?thesis
    by (auto simp: balanced_def perform_fields dest: paired_tl)
next
  case (Callback a rest)
  with assms(1) have b: "paired (a # rest)" "paired (main s)"
    "acquired s"
    "int (wg s) = int (length (launched s)) + int (length (running s))
            + owed (a # rest) + owed (main s)"
    by (auto simp: balanced_def)
  from balanced_perform[of "s\<lparr>callback := rest\<rparr>" a s rest "main s"] Callback b
  have "exited s' \<or> int (wg s') = int (length (launched s')) + int (length (running s'))
      + owed rest + owed (main s)" by simp
  with b Callback show ?thesis
    by (auto simp: balanced_def perform_fields dest: paired_tl)
next
  case (Begin g)
  with assms(1) show ?thesis
    by (auto simp: balanced_def length_remove1_mem)
next
  case (Returns g r)
  with assms(1) have b: "paired (main s)" "paired (callback s)"
    "\<not> acquired s \<longrightarrow> callback s = []"
    "int (wg s) = int (length (launched s)) + int (length (running s))
            + owed (main s) + owed (callback s)"
    by (simp_all add: balanced_def)
  from b(1,2) have o: "0 \<le> owed (main s)" "0 \<le> owed (callback s)"
    by (auto dest: paired_owed)
  from Returns have "0 < length (running s)" by (auto simp: length_pos_if_in_set)
  with b(4) o have w: "0 < wg s" by linarith
  show ?thesis
  proof (cases "\<exists>n k err. g = ControllerRun n k \<and> r = Some err")
    case True
    with Returns show ?thesis by (auto simp: balanced_def perform_fields)
  next
    case False
    then have "returns g r (s\<lparr>running := remove1 g (running s)\<rparr>)
       = wg_Done (s\<lparr>running := remove1 g (running s)\<rparr>)"
      by (cases g; cases r) auto
    with Returns w have s': "s' = s\<lparr>running := remove1 g (running s), wg := wg s - 1\<rparr>"
      by (simp add: wg_Done_def)
    from w have "int (wg s - 1) = int (wg s) - 1" by (simp add: of_nat_diff)
    with b Returns(2,3) show ?thesis
      unfolding s' by (simp add: balanced_def length_remove1_mem)
  qed
next
  case (Acquired rl ld rd rp on off rest)
  with assms(1) show ?thesis by (auto simp: balanced_def)
next
  case (Lost rl ld rd rp on off rest)
  with assms(1) show ?thesis
    by (auto simp: balanced_def owed_append intro!: paired_append)
qed

lemma balanced_reachable:
  assumes "reachable e opts s"
  shows "balanced s"
  using assms
proof (induction rule: reachable_induct)
  case init
  then show ?case using Run_paired[of e opts] by (simp add: balanced_def init_def)
next
  case (step s l s')
  then show ?case by (auto intro: balanced_step)
qed

lemma balanced_wg_pos:
  assumes "balanced s" "\<not> exited s" "g \<in> set (running s)"
  shows "0 < wg s"
proof -
  from assms(1,2) have b: "paired (main s)" "paired (callback s)"
    "int (wg s) = int (length (launched s)) + int (length (running s))
            + owed (main s) + owed (callback s)"
    by (simp_all add: balanced_def)
  from b(1,2) have o: "0 \<le> owed (main s)" "0 \<le> owed (callback s)"
    by (auto dest: paired_owed)
  from assms(3) have "0 < length (running s)" by (auto simp: length_pos_if_in_set)
  with b(3) o show ?thesis by linarith
qed

subsection \<open>The example executions\<close>

lemma supervised_exec: "exec schedule (init example_env example_opts) = Some supervised"
  unfolding supervised_def schedule_def by code_simp

lemma supervised_reachable: "reachable example_env example_opts supervised"
  unfolding reachable_def using supervised_exec by blast

lemma supervised_main: "main supervised = [WgWait, Fatalf ''Control loops exited'' []]"
  unfolding supervised_def schedule_def by code_simp

lemma supervised_running:
  "running supervised = [ControllerRun ''issuers'' 5, ControllerRun ''certificates'' 5]"
  unfolding supervised_def schedule_def by code_simp

lemma supervised_alive: "\<not> exited supervised"
  unfolding supervised_def schedule_def by code_simp


lemma electing_exec: "exec electing_schedule (init example_env elect_opts) = Some electing"
  unfolding electing_def electing_schedule_def by code_simp

lemma electing_reachable: "reachable example_env elect_opts electing"
  unfolding reachable_def using electing_exec by blast

lemma electing_main:
  "main electing =
     [RunOrDie example_lock (60 * time_Second) (40 * time_Second) (15 * time_Second)
        (run elect_opts example_ctx (Known example_env))
        [Fatalf ''leaderelection lost'' []],
      Panic ''unreachable'']"
  unfolding electing_def electing_schedule_def by code_simp

lemma electing_alive: "\<not> exited electing"
  unfolding electing_def electing_schedule_def by code_simp

subsection \<open>The claims about the running process\<close>

text \<open>
  Claim C2. For every options structure and every registry, the controllers for which
  the closure \<open>run\<close> launches a goroutine are exactly the registry's names that are in
  \<open>EnabledControllers\<close>, without \<open>clusterissuers\<close> when the namespace is not empty;
  so with a namespace, \<open>clusterissuers\<close> is never launched, enabled or not. The
  context is the one \<open>buildControllerContext\<close> returned, whose namespace is the
  option's. And in every state the process reaches, a controller that is launched or
  running, or whose runnable has been called, is one of these.
\<close>

theorem C2_started_set:
  assumes "snd (buildControllerContext e opts) = Inr (ctx, cfg)"
  shows "set (started (run opts ctx (Known e))) =
           (set (Known e) \<inter> set (EnabledControllers opts))
             - (if Namespace opts \<noteq> [] then {clusterissuers_ControllerName} else {})
         \<and> (Namespace opts \<noteq> [] \<longrightarrow>
               clusterissuers_ControllerName \<notin> set (started (run opts ctx (Known e))))
         \<and> (\<forall>s n w. reachable e opts s
               \<and> (ControllerRun n w \<in> set (launched s) \<or> ControllerRun n w \<in> set (running s)
                    \<or> Call_Runnable n w \<in> set (out s)) \<longrightarrow>
               n \<in> (set (Known e) \<inter> set (EnabledControllers opts))
                     - (if Namespace opts \<noteq> [] then {clusterissuers_ControllerName} else {}))"
proof (intro conjI allI impI)
  from build_Inr(3)[OF assms]
  show "set (started (run opts ctx (Known e))) =
           (set (Known e) \<inter> set (EnabledControllers opts))
             - (if Namespace opts \<noteq> [] then {clusterissuers_ControllerName} else {})"
    by (auto simp: started_run started_launch_controllers)
next
  assume "Namespace opts \<noteq> []"
  with build_Inr(3)[OF assms]
  show "clusterissuers_ControllerName \<notin> set (started (run opts ctx (Known e)))"
    by (auto simp: started_run started_launch_controllers)
next
  fix s n w
  assume a: "reachable e opts s
               \<and> (ControllerRun n w \<in> set (launched s) \<or> ControllerRun n w \<in> set (running s)
                    \<or> Call_Runnable n w \<in> set (out s))"
  then have "workers_all (allowed (Known e) opts) s"
    using Run_allowed by (auto intro: workers_all_reachable)
  then have "list_all (allowed (Known e) opts) (launched s)"
    and "list_all (allowed (Known e) opts) (running s)"
    and "list_all (every (allowed (Known e) opts)) (out s)"
    by (simp_all add: workers_all_def)
  with a have "allowed (Known e) opts (ControllerRun n w)"
    by (auto simp: list_all_iff dest: every_Call)
  then show "n \<in> (set (Known e) \<inter> set (EnabledControllers opts))
                     - (if Namespace opts \<noteq> [] then {clusterissuers_ControllerName} else {})"
    by simp
qed

theorem C2_started_set_witness:
  "snd (buildControllerContext example_env scoped_opts) = Inr (scoped_ctx, RestConfig [])
   \<and> Namespace scoped_opts \<noteq> []
   \<and> ''clusterissuers'' \<in> set (EnabledControllers scoped_opts)
   \<and> set (started (run scoped_opts scoped_ctx (Known example_env))) =
       {''issuers'', ''certificates''}"
proof -
  have h: "snd (buildControllerContext example_env scoped_opts) = Inr (scoped_ctx, RestConfig [])"
    using scoped_build by (metis snd_conv)
  from C2_started_set[OF h] have
    "set (started (run scoped_opts scoped_ctx (Known example_env))) =
       (set (Known example_env) \<inter> set (EnabledControllers scoped_opts))
         - (if Namespace scoped_opts \<noteq> [] then {clusterissuers_ControllerName} else {})"
    by blast
  then show ?thesis
    using h
    by (auto simp: scoped_opts_def example_opts_def example_env_def
        clusterissuers_ControllerName_def)
qed

text \<open>
  Claim C5. With \<open>LeaderElect\<close> false, \<open>Run\<close> performs no action of the
  leader-election path (no client is built from a configuration with the added user
  agent, the host name is not read, \<open>RunOrDie\<close> is not entered); when the context was
  built, the goroutine of \<open>Run\<close> itself performs the actions of \<open>run\<close> right after
  those of \<open>buildControllerContext\<close>; and in no state the process reaches can the
  library acquire or lose a lease, or a callback goroutine exist.
\<close>

theorem C5_no_leader_election:
  assumes "\<not> LeaderElect opts"
  shows "\<not> list_ex is_leader_election (Run e opts)
       \<and> (\<forall>ctx cfg. snd (buildControllerContext e opts) = Inr (ctx, cfg) \<longrightarrow>
             Run e opts = fst (buildControllerContext e opts) @ run opts ctx (Known e))
       \<and> (\<forall>s. reachable e opts s \<longrightarrow>
             step Acquired s = None \<and> step Lost s = None \<and> callback s = [] \<and> \<not> acquired s)"
proof (intro conjI allI impI)
  show "\<not> list_ex is_leader_election (Run e opts)"
    by (rule Run_no_election[OF assms])
next
  fix ctx cfg
  assume "snd (buildControllerContext e opts) = Inr (ctx, cfg)"
  then show "Run e opts = fst (buildControllerContext e opts) @ run opts ctx (Known e)"
    by (rule Run_direct[OF assms])
next
  fix s
  assume "reachable e opts s"
  then have n: "no_election s" by (rule no_election_reachable) (rule assms)
  from no_election_blocks[OF n] show "step Acquired s = None" and "step Lost s = None"
    by simp_all
  from n show "callback s = []" and "\<not> acquired s"
    by (simp_all add: no_election_def)
qed

theorem C5_no_leader_election_witness:
  "\<not> LeaderElect example_opts
   \<and> \<not> list_ex is_leader_election (Run example_env example_opts)
   \<and> Run example_env example_opts =
       fst (buildControllerContext example_env example_opts)
         @ run example_opts example_ctx (Known example_env)
   \<and> step Acquired supervised = None \<and> step Lost supervised = None
   \<and> callback supervised = []"
proof -
  have h: "\<not> LeaderElect example_opts" by (simp add: example_opts_def)
  from C5_no_leader_election[OF h, of example_env] example_built supervised_reachable h
  show ?thesis by blast
qed



text \<open>
  Claim C3. All four quantity strings are parsed by \<open>buildControllerContext\<close> before
  any worker is launched: if \<open>Run\<close> launches a goroutine at all, at once or in a
  callback, then the four strings parse and the four calls of the parser come, in the
  order of the fields, before the first launch. If a call of the parser fails, the
  error \<open>buildControllerContext\<close> returns is "error parsing ", the name of the field
  parsed, ": " and the parser's message. If any of the four strings does not parse,
  \<open>buildControllerContext\<close> returns an error, \<open>Run\<close> ends with \<open>Fatalf\<close> of it right
  after the actions of \<open>buildControllerContext\<close>, and no worker goroutine exists in
  any state the process reaches.
\<close>

theorem C3_quantities_first:
  "(list_ex launches (Run e opts) \<longrightarrow>
      (\<forall>(f, v) \<in> set (quantity_fields opts). \<exists>q. ParseQuantity e v = Inr q)
      \<and> (\<exists>pre post. Run e opts =
             pre @ map (\<lambda>(f, v). Call_ParseQuantity v) (quantity_fields opts) @ post
             \<and> \<not> list_ex launches pre))
   \<and> (Call_ParseQuantity v \<in> set (fst (buildControllerContext e opts))
        \<and> ParseQuantity e v = Inl err \<longrightarrow>
      (\<exists>f. (f, v) \<in> set (quantity_fields opts)
         \<and> snd (buildControllerContext e opts) = Inl (''error parsing '' @ f @ '': '' @ err)))
   \<and> ((\<exists>(f, v) \<in> set (quantity_fields opts). \<exists>err. ParseQuantity e v = Inl err) \<longrightarrow>
      (\<exists>msg. snd (buildControllerContext e opts) = Inl msg
         \<and> Run e opts = fst (buildControllerContext e opts) @ [Fatalf msg []])
      \<and> \<not> list_ex launches (Run e opts)
      \<and> (\<forall>s. reachable e opts s \<longrightarrow> launched s = [] \<and> running s = []))"
proof (intro conjI impI)
  assume "list_ex launches (Run e opts)"
  then obtain ctx cfg where ok: "snd (buildControllerContext e opts) = Inr (ctx, cfg)"
    using Run_launches_built by blast
  from build_parsed[OF ok]
  show "\<forall>(f, v) \<in> set (quantity_fields opts). \<exists>q. ParseQuantity e v = Inr q" by simp
  from build_parsed[OF ok] obtain pre post where
    t: "fst (buildControllerContext e opts) =
          pre @ map (\<lambda>(f, v). Call_ParseQuantity v) (quantity_fields opts) @ post"
    and pre: "\<not> list_ex launches pre" by blast
  from Run_build_ok[OF ok] obtain post' where
    "Run e opts = fst (buildControllerContext e opts) @ post'" by blast
  with t have "Run e opts =
      pre @ map (\<lambda>(f, v). Call_ParseQuantity v) (quantity_fields opts) @ (post @ post')"
    by simp
  with pre show "\<exists>pre post. Run e opts =
             pre @ map (\<lambda>(f, v). Call_ParseQuantity v) (quantity_fields opts) @ post
             \<and> \<not> list_ex launches pre" by blast
next
  assume "Call_ParseQuantity v \<in> set (fst (buildControllerContext e opts))
        \<and> ParseQuantity e v = Inl err"
  then have "Call_ParseQuantity v \<in> set (fst (buildControllerContext e opts))"
    and "ParseQuantity e v = Inl err" by simp_all
  then show "\<exists>f. (f, v) \<in> set (quantity_fields opts)
         \<and> snd (buildControllerContext e opts) = Inl (''error parsing '' @ f @ '': '' @ err)"
    by (rule build_names_field)
next
  assume "\<exists>(f, v) \<in> set (quantity_fields opts). \<exists>err. ParseQuantity e v = Inl err"
  then obtain msg where msg: "snd (buildControllerContext e opts) = Inl msg"
    using build_rejects by blast
  then have R: "Run e opts = fst (buildControllerContext e opts) @ [Fatalf msg []]"
    by (rule Run_build_error)
  with msg show "\<exists>msg. snd (buildControllerContext e opts) = Inl msg
         \<and> Run e opts = fst (buildControllerContext e opts) @ [Fatalf msg []]" by blast
  from R build_trace_plain(2)[of e opts] show n: "\<not> list_ex launches (Run e opts)" by simp
  show "\<forall>s. reachable e opts s \<longrightarrow> launched s = [] \<and> running s = []"
    using idle_reachable[OF _ n] by (auto simp: idle_def)
qed

theorem C3_quantities_first_witness:
  "Call_ParseQuantity ''not-a-quantity'' \<in> set (fst (buildControllerContext example_env bad_opts))
   \<and> ParseQuantity example_env ''not-a-quantity'' = Inl ''unable to parse quantity''
   \<and> (''ACMEHTTP01SolverResourceRequestCPU'', ''not-a-quantity'') \<in> set (quantity_fields bad_opts)
   \<and> snd (buildControllerContext example_env bad_opts) =
        Inl ''error parsing ACMEHTTP01SolverResourceRequestCPU: unable to parse quantity''
   \<and> \<not> list_ex launches (Run example_env bad_opts)
   \<and> list_ex launches (Run example_env example_opts)
   \<and> ParseQuantity example_env (ACMEHTTP01SolverResourceLimitsMemory example_opts) = Inr ''64Mi''"
proof -
  have p: "ParseQuantity example_env ''not-a-quantity'' = Inl ''unable to parse quantity''"
    by (simp add: example_env_def)
  have f: "(''ACMEHTTP01SolverResourceRequestCPU'', ''not-a-quantity'')
      \<in> set (quantity_fields bad_opts)"
    by (simp add: quantity_fields_def bad_opts_def)
  have c: "Call_ParseQuantity ''not-a-quantity''
      \<in> set (fst (buildControllerContext example_env bad_opts))"
    by (simp add: bad_build)
  have "\<not> LeaderElect example_opts" by (simp add: example_opts_def)
  then have "Run example_env example_opts =
      fst (buildControllerContext example_env example_opts)
        @ run example_opts example_ctx (Known example_env)"
    using example_built by (rule Run_direct)
  then have l: "list_ex launches (Run example_env example_opts)"
    by (simp add: run_def)
  have b: "\<exists>(f, v) \<in> set (quantity_fields bad_opts). \<exists>err. ParseQuantity example_env v = Inl err"
    using f p by blast
  from C3_quantities_first[of example_env bad_opts "''not-a-quantity''"
      "''unable to parse quantity''"] b
  have 1: "\<not> list_ex launches (Run example_env bad_opts)" by blast
  from C3_quantities_first[of example_env example_opts] l
  have "\<forall>(f, v) \<in> set (quantity_fields example_opts). \<exists>q. ParseQuantity example_env v = Inr q"
    by blast
  then obtain q where
    "ParseQuantity example_env (ACMEHTTP01SolverResourceLimitsMemory example_opts) = Inr q"
    by (auto simp: quantity_fields_def)
  then have 2:
    "ParseQuantity example_env (ACMEHTTP01SolverResourceLimitsMemory example_opts) = Inr ''64Mi''"
    by (auto simp: example_env_def example_opts_def)
  from p f c l 1 2 show ?thesis by (simp add: bad_build)
qed

text \<open>
  Claim C6. In every state the process reaches in which it has not exited and the
  goroutine of \<open>Run\<close> is inside \<open>RunOrDie\<close>, the callback \<open>OnStoppedLeading\<close> is the
  single action \<open>Fatalf "leaderelection lost"\<close>; the library can fire it, whatever
  the workers are doing, and the first thing the goroutine then does is that
  \<open>Fatalf\<close>: the line is logged, the process has exited, and no goroutine takes
  another step.
\<close>

theorem C6_leadership_lost:
  assumes "reachable e opts s" and "\<not> exited s"
    and "main s = RunOrDie rl ld rd rp on off # rest"
  shows "off = [Fatalf ''leaderelection lost'' []]
       \<and> (\<exists>s1 s2. step Lost s = Some s1
             \<and> main s1 = Fatalf ''leaderelection lost'' [] # rest
             \<and> step StepMain s1 = Some s2
             \<and> exited s2
             \<and> out s2 = out s @ [Fatalf ''leaderelection lost'' []]
             \<and> (\<forall>l. step l s2 = None))"
proof -
  from fatal_on_loss_reachable[OF assms(1)] assms(3)
  have off: "off = [Fatalf ''leaderelection lost'' []]"
    by (simp add: fatal_on_loss_def)
  let ?s1 = "s\<lparr>main := off @ rest\<rparr>"
  let ?s2 = "perform (Fatalf ''leaderelection lost'' []) (?s1\<lparr>main := rest\<rparr>)"
  have 1: "step Lost s = Some ?s1"
    using assms(2,3) by (simp add: step_def)
  have 2: "step StepMain ?s1 = Some ?s2"
    using assms(2) off by (simp add: step_def step_thread_def)
  have 3: "exited ?s2" "out ?s2 = out s @ [Fatalf ''leaderelection lost'' []]"
    by (simp_all add: perform_fields)
  from 3(1) have 4: "\<forall>l. step l ?s2 = None"
    by (simp add: step_exited)
  from off 1 2 3 4 show ?thesis
    by (intro conjI exI[of _ ?s1] exI[of _ ?s2]) simp_all
qed

theorem C6_leadership_lost_witness:
  "reachable example_env elect_opts electing
   \<and> \<not> exited electing
   \<and> main electing =
       [RunOrDie example_lock (60 * time_Second) (40 * time_Second) (15 * time_Second)
          (run elect_opts example_ctx (Known example_env))
          [Fatalf ''leaderelection lost'' []],
        Panic ''unreachable'']
   \<and> exec [Lost, StepMain] electing = Some lost
   \<and> exited lost
   \<and> out lost = out electing @ [Fatalf ''leaderelection lost'' []]"
proof -
  from C6_leadership_lost[OF electing_reachable electing_alive electing_main]
  obtain s1 s2 where "step Lost electing = Some s1" "step StepMain s1 = Some s2"
    and s2: "exited s2" "out s2 = out electing @ [Fatalf ''leaderelection lost'' []]"
    by blast
  then have e: "exec [Lost, StepMain] electing = Some s2" by simp
  then have "lost = s2" by (simp add: lost_def)
  with e s2 electing_reachable electing_alive electing_main show ?thesis by simp
qed

text \<open>
  Claim C1, as amended. In every state the process reaches in which it has not exited
  and a worker \<open>g\<close> is running: if \<open>g\<close> is a controller and its runnable returns an
  error, the process logs "error running %s controller: %s" fatally and has exited,
  whatever the other workers do; if the runnable returns nil, or \<open>g\<close> is the metrics
  exporter and returns, nothing is logged, the process has not exited, the other
  workers and the goroutines of \<open>Run\<close> are as before and only the counter of the
  wait group is one less; and as long as \<open>g\<close> is running, a goroutine that is at
  \<open>wg.Wait()\<close> cannot pass it, so the \<open>Fatalf "Control loops exited"\<close> that follows
  it in \<open>run\<close> waits for every worker.
\<close>

theorem C1_worker_return:
  assumes "reachable e opts s" and "\<not> exited s" and "g \<in> set (running s)"
  shows "(\<forall>n k err. g = ControllerRun n k \<longrightarrow>
            (\<exists>s'. step (Returns g (Some err)) s = Some s' \<and> exited s'
               \<and> out s' = out s @ [Fatalf ''error running %s controller: %s'' [S n, S err]]))
       \<and> (\<forall>r. r = None \<or> g = MetricsStart \<longrightarrow>
            (\<exists>s'. step (Returns g r) s = Some s' \<and> \<not> exited s' \<and> out s' = out s
               \<and> main s' = main s \<and> callback s' = callback s \<and> launched s' = launched s
               \<and> running s' = remove1 g (running s) \<and> wg s' + 1 = wg s))
       \<and> (\<forall>rest. main s = WgWait # rest \<longrightarrow> step StepMain s = None)
       \<and> (\<forall>rest. callback s = WgWait # rest \<longrightarrow> step StepCallback s = None)"
proof (intro conjI allI impI)
  fix n k err assume "g = ControllerRun n k"
  with assms(2,3) show "\<exists>s'. step (Returns g (Some err)) s = Some s' \<and> exited s'
               \<and> out s' = out s @ [Fatalf ''error running %s controller: %s'' [S n, S err]]"
    by (simp add: step_def perform_fields)
next
  have w: "0 < wg s"
    using balanced_reachable[OF assms(1)] assms(2,3) by (rule balanced_wg_pos)
  {
    fix r :: "string option" assume "r = None \<or> g = MetricsStart"
    then have "returns g r (s\<lparr>running := remove1 g (running s)\<rparr>)
       = wg_Done (s\<lparr>running := remove1 g (running s)\<rparr>)"
      by (cases g; cases r) auto
    with w have "returns g r (s\<lparr>running := remove1 g (running s)\<rparr>)
       = s\<lparr>running := remove1 g (running s), wg := wg s - 1\<rparr>"
      by (simp add: wg_Done_def)
    with assms(2,3) w
    show "\<exists>s'. step (Returns g r) s = Some s' \<and> \<not> exited s' \<and> out s' = out s
               \<and> main s' = main s \<and> callback s' = callback s \<and> launched s' = launched s
               \<and> running s' = remove1 g (running s) \<and> wg s' + 1 = wg s"
      by (simp add: step_def)
  }
  {
    fix rest assume "main s = WgWait # rest"
    with w show "step StepMain s = None" by (simp add: step_def step_thread_def)
  }
  {
    fix rest assume "callback s = WgWait # rest"
    with w show "step StepCallback s = None" by (simp add: step_def step_thread_def)
  }
qed

theorem C1_worker_return_witness:
  "reachable example_env example_opts supervised
   \<and> \<not> exited supervised
   \<and> ControllerRun ''issuers'' 5 \<in> set (running supervised)
   \<and> step (Returns (ControllerRun ''issuers'' 5) (Some ''boom'')) supervised = Some after_error
   \<and> exited after_error
   \<and> out after_error =
       out supervised @ [Fatalf ''error running %s controller: %s'' [S ''issuers'', S ''boom'']]
   \<and> main supervised = [WgWait, Fatalf ''Control loops exited'' []]
   \<and> step StepMain supervised = None"
proof -
  have g: "ControllerRun ''issuers'' 5 \<in> set (running supervised)"
    by (simp add: supervised_running)
  note C = C1_worker_return[OF supervised_reachable supervised_alive g]
  from C obtain s' where
    s': "step (Returns (ControllerRun ''issuers'' 5) (Some ''boom'')) supervised = Some s'"
      "exited s'"
      "out s' = out supervised
         @ [Fatalf ''error running %s controller: %s'' [S ''issuers'', S ''boom'']]"
    by blast
  then have a: "after_error = s'" by (simp add: after_error_def)
  from C supervised_main have w: "step StepMain supervised = None" by blast
  from s' a w g supervised_reachable supervised_alive supervised_main show ?thesis by simp
qed

text \<open>
  Claim C1 as stated fails. In the example, "issuers" and "certificates" are running
  and the goroutine of \<open>Run\<close> waits in \<open>wg.Wait()\<close>. The runnable of "issuers"
  returns nil: nothing is logged, the process has not exited, "certificates" is still
  running and the supervisor still waits.
\<close>

theorem C1_counterexample:
  "exec schedule (init example_env example_opts) = Some supervised
   \<and> running supervised = [ControllerRun ''issuers'' 5, ControllerRun ''certificates'' 5]
   \<and> \<not> exited supervised
   \<and> step (Returns (ControllerRun ''issuers'' 5) None) supervised = Some after_clean_return
   \<and> \<not> exited after_clean_return
   \<and> out after_clean_return = out supervised
   \<and> \<not> list_ex exits (out after_clean_return)
   \<and> running after_clean_return = [ControllerRun ''certificates'' 5]
   \<and> main after_clean_return = [WgWait, Fatalf ''Control loops exited'' []]
   \<and> step StepMain after_clean_return = None"
  unfolding after_clean_return_def supervised_def schedule_def
  by code_simp

end
